theory Spec2Isabelle
  imports Main "HOL-Library.Word" "HOL-Library.Multiset"
begin

section \<open>server/common.h\<close>

subsection \<open>KeyIndex\<close>

text \<open>
  \<^verbatim>\<open>struct KeyIndex\<close>: four \<^verbatim>\<open>unsigned\<close> fields, modelled as 32-bit words, so that
  \<open>+\<close> and \<open>-\<close> wrap around as the C++ does and \<open>\<le>\<close> is the unsigned comparison.
  The field \<^verbatim>\<open>end\<close> is named \<open>end'\<close> (\<open>end\<close> is reserved).
\<close>

record KeyIndex =
  bonus :: "32 word"
  start :: "32 word"
  end' :: "32 word"
  step :: "32 word"

definition HasSingleKey :: "KeyIndex \<Rightarrow> bool" where
  "HasSingleKey k = (bonus k = 0 \<and> start k + step k \<ge> end' k)"

definition num_args :: "KeyIndex \<Rightarrow> 32 word" where
  "num_args k = end' k - start k + (if bonus k > 0 then 1 else 0)"

subsection \<open>AggregateValue\<close>

text \<open>
  \<^verbatim>\<open>template <typename T> struct AggregateValue\<close>. \<^verbatim>\<open>T{}\<close> is \<open>default\<close> of the type
  class \<open>default\<close>, and \<^verbatim>\<open>==\<close> on \<^verbatim>\<open>T\<close> is equality (as it is for \<^verbatim>\<open>std::error_code\<close> and
  \<^verbatim>\<open>OpStatus\<close>, the types of \<^verbatim>\<open>AggregateError\<close> and \<^verbatim>\<open>AggregateStatus\<close>). Every member function holds the
  mutex \<^verbatim>\<open>mu_\<close> for its whole body, so concurrent calls take effect one after another:
  a run of the object is a sequence of calls, each a function from state to state.
\<close>

record 'a AggregateValue =
  current :: 'a

definition AggregateValue_init :: "('a::default) AggregateValue" where
  "AggregateValue_init = \<lparr>current = default\<rparr>"

text \<open>\<^verbatim>\<open>bool operator=(T val)\<close>: the returned flag and the state after the call.\<close>

definition assign :: "('a::default) AggregateValue \<Rightarrow> 'a \<Rightarrow> bool \<times> 'a AggregateValue" where
  "assign a val =
     (val \<noteq> default,
      if current a = default \<and> val \<noteq> default then a\<lparr>current := val\<rparr> else a)"

text \<open>\<^verbatim>\<open>T operator*()\<close> and \<^verbatim>\<open>operator bool()\<close>.\<close>

definition deref :: "('a::default) AggregateValue \<Rightarrow> 'a" where
  "deref a = current a"

definition to_bool :: "('a::default) AggregateValue \<Rightarrow> bool" where
  "to_bool a = (deref a \<noteq> default)"

text \<open>A sequence of writes, applied left to right.\<close>

fun assign_all :: "('a::default) AggregateValue \<Rightarrow> 'a list \<Rightarrow> 'a AggregateValue" where
  "assign_all a [] = a"
| "assign_all a (v # vs) = assign_all (snd (assign a v)) vs"

subsection \<open>std::error\_code, GenericError\<close>

text \<open>
  \<^verbatim>\<open>std::error_code\<close> is a pair of an \<^verbatim>\<open>int\<close> value and a category (here the
  category's identity as a number, \<open>0\<close> for the system category of a default
  constructed code). Two codes are equal when both parts are; the conversion to
  \<^verbatim>\<open>bool\<close> looks at the value only.
\<close>

datatype error_code = ErrorCode (ec_value: "32 word") (ec_category: nat)

instantiation error_code :: default
begin
definition default_error_code :: error_code where
  "default_error_code = ErrorCode 0 0"
instance ..
end

definition ec_bool :: "error_code \<Rightarrow> bool" where
  "ec_bool c = (ec_value c \<noteq> 0)"

record GenericError =
  ec :: error_code
  details :: string

text \<open>The three constructors of \<^verbatim>\<open>GenericError\<close>.\<close>

definition GenericError0 :: GenericError where
  "GenericError0 = \<lparr>ec = default, details = []\<rparr>"

definition GenericError1 :: "error_code \<Rightarrow> GenericError" where
  "GenericError1 c = \<lparr>ec = c, details = []\<rparr>"

definition GenericError2 :: "error_code \<Rightarrow> string \<Rightarrow> GenericError" where
  "GenericError2 c d = \<lparr>ec = c, details = d\<rparr>"

definition GetError :: "GenericError \<Rightarrow> error_code" where
  "GetError e = ec e"

definition GetDetails :: "GenericError \<Rightarrow> string" where
  "GetDetails e = details e"

text \<open>\<^verbatim>\<open>GenericError::operator bool\<close>.\<close>

definition ge_bool :: "GenericError \<Rightarrow> bool" where
  "ge_bool e = ec_bool (ec e)"

subsection \<open>Cancellation, Context\<close>

text \<open>
  \<^verbatim>\<open>class Context : public Cancellation\<close>: the flag of the base class, the stored
  error, and the handler (\<open>None\<close> for an empty \<^verbatim>\<open>std::function\<close>). \<^verbatim>\<open>Error\<close> holds
  \<^verbatim>\<open>mu_\<close> for its whole body, so concurrent calls are a sequence of calls.
\<close>

record Context =
  flag :: bool
  err :: GenericError
  err_handler :: "(GenericError \<Rightarrow> bool) option"

definition Cancel :: "Context \<Rightarrow> Context" where
  "Cancel c = c\<lparr>flag := True\<rparr>"

definition IsCancelled :: "Context \<Rightarrow> bool" where
  "IsCancelled c = flag c"

text \<open>
  \<^verbatim>\<open>Context(ErrHandler err_handler) : Cancellation{}, err_handler_{...}\<close>: the base is
  value-initialised, so the flag starts false; \<^verbatim>\<open>err_\<close> is default constructed.
  \<open>Context_init\<close> is the state of a value-initialised \<^verbatim>\<open>Context{}\<close>.
\<close>

definition Context_handler :: "(GenericError \<Rightarrow> bool) \<Rightarrow> Context" where
  "Context_handler h = \<lparr>flag = False, err = GenericError0, err_handler = Some h\<rparr>"

definition Context_init :: Context where
  "Context_init = \<lparr>flag = False, err = GenericError0, err_handler = None\<rparr>"

text \<open>
  \<^verbatim>\<open>!err_handler_ || err_handler_(new_err)\<close>.
\<close>

definition accepts :: "Context \<Rightarrow> GenericError \<Rightarrow> bool" where
  "accepts c new_err = (case err_handler c of None \<Rightarrow> True | Some h \<Rightarrow> h new_err)"

text \<open>
  \<^verbatim>\<open>template <typename... T> void Error(T... ts)\<close>. The argument is the
  \<^verbatim>\<open>GenericError new_err{ts...}\<close> that the call builds from its arguments.
\<close>

definition Error :: "Context \<Rightarrow> GenericError \<Rightarrow> Context" where
  "Error c new_err =
     (if ge_bool (err c) then c
      else if accepts c new_err then Cancel (c\<lparr>err := new_err\<rparr>)
      else c)"

text \<open>
  Whether a call reaches the assignment \<^verbatim>\<open>err_ = std::move(new_err)\<close>, and how many
  calls of a sequence do.
\<close>

definition stores :: "Context \<Rightarrow> GenericError \<Rightarrow> bool" where
  "stores c new_err = (\<not> ge_bool (err c) \<and> accepts c new_err)"

fun Error_all :: "Context \<Rightarrow> GenericError list \<Rightarrow> Context" where
  "Error_all c [] = c"
| "Error_all c (e # es) = Error_all (Error c e) es"

fun assignments :: "Context \<Rightarrow> GenericError list \<Rightarrow> nat" where
  "assignments c [] = 0"
| "assignments c (e # es) = (if stores c e then 1 else 0) + assignments (Error c e) es"

text \<open>The policy \<open>p(e) = (e.code \<noteq> X)\<close> as an error handler.\<close>

definition code_differs :: "error_code \<Rightarrow> GenericError \<Rightarrow> bool" where
  "code_differs X e = (GetError e \<noteq> X)"

section \<open>server/memory\_cmd.cc\<close>

subsection \<open>The block histogram\<close>

text \<open>
  \<^verbatim>\<open>BlockKey\<close> is a tuple of four \<^verbatim>\<open>size_t\<close> (block size, reserved, committed, used)
  and \<^verbatim>\<open>BlockMap\<close> a hash map from keys to \<^verbatim>\<open>uint64_t\<close> counts; both integer types
  are 64-bit words, so sums and products wrap around as in the C++.
\<close>

type_synonym BlockKey = "64 word \<times> 64 word \<times> 64 word \<times> 64 word"
type_synonym BlockMap = "BlockKey \<rightharpoonup> 64 word"
type_synonym Totals = "64 word \<times> 64 word \<times> 64 word"

fun get0 :: "BlockKey \<Rightarrow> 64 word" where
  "get0 (a, b, c, d) = a"

fun get1 :: "BlockKey \<Rightarrow> 64 word" where
  "get1 (a, b, c, d) = b"

fun get2 :: "BlockKey \<Rightarrow> 64 word" where
  "get2 (a, b, c, d) = c"

fun get3 :: "BlockKey \<Rightarrow> 64 word" where
  "get3 (a, b, c, d) = d"

text \<open>The fields of mimalloc's \<^verbatim>\<open>mi_heap_area_t\<close> that the visitor reads.\<close>

record mi_heap_area =
  reserved :: "64 word"
  committed :: "64 word"
  used :: "64 word"

text \<open>
  \<^verbatim>\<open>MiArenaVisit\<close>: \<^verbatim>\<open>(*bmap)[bkey]++\<close> inserts the key with count 0 when it is
  absent and then increments. The visitor returns \<^verbatim>\<open>true\<close>.
\<close>

definition bkey_of :: "mi_heap_area \<Rightarrow> 64 word \<Rightarrow> BlockKey" where
  "bkey_of area block_size = (block_size, reserved area, committed area, used area * block_size)"

definition MiArenaVisit :: "mi_heap_area \<Rightarrow> 64 word \<Rightarrow> BlockMap \<Rightarrow> bool \<times> BlockMap" where
  "MiArenaVisit area block_size bmap =
     (let bkey = bkey_of area block_size
      in (True, bmap(bkey \<mapsto> (case bmap bkey of None \<Rightarrow> 0 | Some n \<Rightarrow> n) + 1)))"

text \<open>
  \<^verbatim>\<open>mi_heap_visit_blocks(data_heap, false, MiArenaVisit, &block_map)\<close>: the allocator
  calls the visitor once for each area of the heap, given here as the list of areas with
  their block sizes, and stops when the visitor returns false.
\<close>

fun mi_heap_visit_blocks :: "(mi_heap_area \<times> 64 word) list \<Rightarrow> BlockMap \<Rightarrow> BlockMap" where
  "mi_heap_visit_blocks [] bmap = bmap"
| "mi_heap_visit_blocks ((area, block_size) # rest) bmap =
     (case MiArenaVisit area block_size bmap of
        (continue, bmap') \<Rightarrow> if continue then mi_heap_visit_blocks rest bmap' else bmap')"

text \<open>
  The loop \<^verbatim>\<open>for (const auto& k_v : block_map)\<close> of \<^verbatim>\<open>MallocStats\<close> over the entries
  in the order the hash map yields them, and the totals it reports, starting from
  \<^verbatim>\<open>reserved = 0, committed = 0, used = 0\<close>. (The text of the report, the allocator's
  own statistics and the elapsed time are not modelled.)
\<close>

fun totals_loop :: "(BlockKey \<times> 64 word) list \<Rightarrow> Totals \<Rightarrow> Totals" where
  "totals_loop [] acc = acc"
| "totals_loop ((k, n) # kvs) (reserved_sum, committed_sum, used_sum) =
     totals_loop kvs
       (reserved_sum + n * get1 k, committed_sum + n * get2 k, used_sum + n * get3 k)"

definition MallocStats_totals :: "(BlockKey \<times> 64 word) list \<Rightarrow> Totals" where
  "MallocStats_totals kvs = totals_loop kvs (0, 0, 0)"

text \<open>
  The order of iteration over a hash map is unspecified: \<open>kvs\<close> is an iteration of
  \<open>bmap\<close> when it lists every entry of the map once.
\<close>

definition iterates :: "(BlockKey \<times> 64 word) list \<Rightarrow> BlockMap \<Rightarrow> bool" where
  "iterates kvs bmap = (distinct (map fst kvs) \<and> map_of kvs = bmap)"

definition count_of :: "BlockMap \<Rightarrow> BlockKey \<Rightarrow> 64 word" where
  "count_of bmap k = (case bmap k of None \<Rightarrow> 0 | Some n \<Rightarrow> n)"

definition weighted :: "(BlockKey \<Rightarrow> 64 word) \<Rightarrow> BlockMap \<Rightarrow> 64 word" where
  "weighted g bmap = (\<Sum>k \<in> dom bmap. the (bmap k) * g k)"

subsection \<open>Merging shard reports\<close>

text \<open>
  Modelled from the spec: the merge of per-shard reports, which memory\_cmd.cc does not
  have (\<^verbatim>\<open>MallocStats\<close> reports the heap of the one thread it runs on). In the words of
  the specification, the merge "unions all shard histograms by key, summing counts", and
  sums the three byte totals of the reports.
\<close>

definition merge_hist :: "BlockMap \<Rightarrow> BlockMap \<Rightarrow> BlockMap" where
  "merge_hist a b =
     (\<lambda>k. case a k of
            None \<Rightarrow> b k
          | Some x \<Rightarrow> (case b k of None \<Rightarrow> Some x | Some y \<Rightarrow> Some (x + y)))"

fun add_totals :: "Totals \<Rightarrow> Totals \<Rightarrow> Totals" where
  "add_totals (r, c, u) (r', c', u') = (r + r', c + c', u + u')"

fun merge_report :: "BlockMap \<times> Totals \<Rightarrow> BlockMap \<times> Totals \<Rightarrow> BlockMap \<times> Totals" where
  "merge_report (h, t) (h', t') = (merge_hist h h', add_totals t t')"

subsection \<open>MemoryCmd::Run\<close>

text \<open>
  What \<^verbatim>\<open>Run\<close> takes from outside this file: the two error strings and
  \<^verbatim>\<open>UnknownSubCmd\<close> of \<^verbatim>\<open>facade/error.h\<close>, \<^verbatim>\<open>absl::SimpleAtoi\<close> into a
  \<^verbatim>\<open>uint32_t\<close> (\<open>None\<close> when it returns false), the size of the proactor pool, and
  the text that \<^verbatim>\<open>MallocStats(tid)\<close> returns when it runs on thread \<open>tid\<close>.
\<close>

record Env =
  kInvalidIntErr :: string
  kSyntaxErrType :: string
  UnknownSubCmd :: "string \<Rightarrow> string \<Rightarrow> string"
  SimpleAtoi :: "string \<Rightarrow> 32 word option"
  pool_size :: nat
  MallocStats_on :: "nat \<Rightarrow> string"

text \<open>
  The reply sent to the connection (\<^verbatim>\<open>SendError\<close> with its optional type), and the
  thread the work was dispatched to by \<^verbatim>\<open>pool()->at(tid)->AwaitBrief\<close>, if any.
\<close>

datatype reply = SendLong int | SendError string "string option" | SendBulkString string

record outcome =
  dispatched :: "nat option"
  sent :: reply

text \<open>
  Reading an argument that is not there and the remainder by a pool size of zero are
  undefined in the C++; the model returns them as faults.
\<close>

datatype fault = ArgOutOfRange | ZeroPoolSize

definition ArgS :: "string list \<Rightarrow> nat \<Rightarrow> fault + string" where
  "ArgS args i = (if i < length args then Inr (args ! i) else Inl ArgOutOfRange)"

text \<open>
  \<^verbatim>\<open>tid % shard_set->pool()->size()\<close> is the remainder of the unsigned value of
  \<^verbatim>\<open>tid\<close>; it is at most \<^verbatim>\<open>tid\<close>, so storing it back into the \<^verbatim>\<open>uint32_t\<close> loses
  nothing.
\<close>

definition Run :: "Env \<Rightarrow> string list \<Rightarrow> fault + outcome" where
  "Run env args =
     (case ArgS args 1 of
        Inl f \<Rightarrow> Inl f
      | Inr sub_cmd \<Rightarrow>
          if sub_cmd = ''USAGE'' then Inr \<lparr>dispatched = None, sent = SendLong 1\<rparr>
          else if sub_cmd = ''MALLOC-STATS'' then
            (case (if 3 \<le> length args then SimpleAtoi env (args ! 2) else Some 0) of
               None \<Rightarrow> Inr \<lparr>dispatched = None, sent = SendError (kInvalidIntErr env) None\<rparr>
             | Some tid \<Rightarrow>
                 if pool_size env = 0 then Inl ZeroPoolSize
                 else
                   (let tid' = unat tid mod pool_size env
                    in Inr \<lparr>dispatched = Some tid',
                            sent = SendBulkString (MallocStats_on env tid')\<rparr>))
          else Inr \<lparr>dispatched = None,
                    sent = SendError (UnknownSubCmd env sub_cmd ''MEMORY'')
                             (Some (kSyntaxErrType env))\<rparr>)"

subsection \<open>Data of the worked examples\<close>

text \<open>
  A server with four shards whose integer parser knows the selectors 7 and 4, an area
  whose key is \<open>(8, 8, 8, 8)\<close>, and the reports of two shards that counted three and two
  such areas.
\<close>

definition four_shards :: Env where
  "four_shards =
     \<lparr>kInvalidIntErr = ''value is not an integer or out of range'',
      kSyntaxErrType = ''syntax_error'',
      UnknownSubCmd = (\<lambda>sub cmd. ''Unknown subcommand '' @ sub @ ''. Try '' @ cmd @ '' HELP.''),
      SimpleAtoi = [''7'' \<mapsto> 7, ''4'' \<mapsto> 4],
      pool_size = 4,
      MallocStats_on = (\<lambda>tid. ''stats'')\<rparr>"

definition block8 :: "mi_heap_area \<times> 64 word" where
  "block8 = (\<lparr>reserved = 8, committed = 8, used = 1\<rparr>, 8)"

definition key8 :: BlockKey where
  "key8 = (8, 8, 8, 8)"

definition shard_A :: "BlockMap \<times> Totals" where
  "shard_A = ([key8 \<mapsto> 3], (24, 24, 24))"

definition shard_B :: "BlockMap \<times> Totals" where
  "shard_B = ([key8 \<mapsto> 2], (16, 16, 16))"

section \<open>Properties of KeyIndex\<close>

lemma HasSingleKey_unat:
  "HasSingleKey k \<longleftrightarrow>
     bonus k = 0 \<and> unat (end' k) \<le> (unat (start k) + unat (step k)) mod 2 ^ 32"
  by (simp add: HasSingleKey_def word_le_nat_alt unat_word_ariths)

lemma num_args_unat_no_wrap:
  assumes "unat (start k) \<le> unat (end' k)"
    and "unat (end' k) - unat (start k) + 1 < 2 ^ 32"
  shows "unat (num_args k) = unat (end' k) - unat (start k) + (if bonus k > 0 then 1 else 0)"
proof -
  have le: "start k \<le> end' k"
    using assms(1) by (simp add: word_le_nat_alt)
  have sub: "unat (end' k - start k) = unat (end' k) - unat (start k)"
    using le by (simp add: unat_sub)
  show ?thesis
    using assms(2) sub by (simp add: num_args_def unat_word_ariths)
qed

text \<open>
  C4. For every \<open>KeyIndex\<close>, \<open>HasSingleKey\<close> is true iff \<open>bonus = 0\<close> and
  \<open>start + step \<ge> end\<close>, and \<open>num_args\<close> is \<open>end - start\<close> plus one when \<open>bonus > 0\<close>
  (both in unsigned 32-bit arithmetic); the three descriptors of the specification
  give \<open>true\<close> and 1, 4 and \<open>false\<close>, and 3.
\<close>

theorem KeyIndex_HasSingleKey_num_args:
  "(HasSingleKey k \<longleftrightarrow> bonus k = 0 \<and> start k + step k \<ge> end' k)
   \<and> num_args k = end' k - start k + (if bonus k > 0 then 1 else 0)
   \<and> HasSingleKey \<lparr>bonus = 0, start = 0, end' = 1, step = 1\<rparr>
   \<and> num_args \<lparr>bonus = 0, start = 0, end' = 1, step = 1\<rparr> = 1
   \<and> num_args \<lparr>bonus = 0, start = 1, end' = 5, step = 2\<rparr> = 4
   \<and> \<not> HasSingleKey \<lparr>bonus = 0, start = 1, end' = 5, step = 2\<rparr>
   \<and> num_args \<lparr>bonus = 1, start = 0, end' = 2, step = 1\<rparr> = 3"
  by (simp add: HasSingleKey_def num_args_def)

section \<open>Properties of AggregateValue\<close>

lemma assign_all_latched:
  "current a \<noteq> default \<Longrightarrow> assign_all a vs = a"
  by (induction vs arbitrary: a) (simp_all add: assign_def)

lemma assign_all_append:
  "assign_all a (vs @ ws) = assign_all (assign_all a vs) ws"
  by (induction vs arbitrary: a) simp_all

lemma assign_all_first:
  "current a = default \<Longrightarrow>
   current (assign_all a vs) =
     (case find (\<lambda>v. v \<noteq> default) vs of None \<Rightarrow> default | Some v \<Rightarrow> v)"
proof (induction vs arbitrary: a)
  case Nil
  then show ?case by simp
next
  case (Cons v vs)
  show ?case
  proof (cases "v = default")
    case True
    with Cons show ?thesis by (simp add: assign_def)
  next
    case False
    with Cons.prems have "snd (assign a v) = a\<lparr>current := v\<rparr>"
      by (simp add: assign_def)
    with False show ?thesis
      by (simp add: assign_all_latched)
  qed
qed

text \<open>
  C2. For every sequence of writes to an \<open>AggregateValue\<close>: once the stored value is
  non-default no later write changes it, and the value stored after the writes to a
  fresh object is the first non-default candidate of the sequence (the default when
  there is none).
\<close>

theorem AggregateValue_first_value_latch:
  "(current (assign_all a vs) \<noteq> default \<longrightarrow>
      assign_all a (vs @ ws) = assign_all a vs)
   \<and> current (assign_all AggregateValue_init vs) =
       (case find (\<lambda>v. v \<noteq> default) vs of None \<Rightarrow> default | Some v \<Rightarrow> v)"
  by (simp add: assign_all_append assign_all_latched assign_all_first AggregateValue_init_def)

theorem AggregateValue_first_value_latch_witness:
  "current (assign_all AggregateValue_init [default, ErrorCode 5 0, ErrorCode 7 0]) \<noteq> default
   \<and> assign_all AggregateValue_init ([default, ErrorCode 5 0, ErrorCode 7 0] @ [ErrorCode 9 1])
       = \<lparr>current = ErrorCode 5 0\<rparr>
   \<and> current (assign_all AggregateValue_init [default, ErrorCode 5 0, ErrorCode 7 0])
       = ErrorCode 5 0"
  using AggregateValue_first_value_latch
    [of AggregateValue_init "[default, ErrorCode 5 0, ErrorCode 7 0]" "[ErrorCode 9 1]"]
  by (simp add: assign_def AggregateValue_init_def default_error_code_def)

text \<open>
  C5. In every state, \<^verbatim>\<open>operator=\<close> returns true iff the value written is not the
  default, whether or not the value was stored.
\<close>

theorem assign_returns_nondefault:
  "fst (assign a v) = (v \<noteq> default)"
  by (simp add: assign_def)

section \<open>Properties of Context\<close>

lemma Error_all_set: "ge_bool (err c) \<Longrightarrow> Error_all c es = c"
  by (induction es arbitrary: c) (simp_all add: Error_def)

lemma assignments_set: "ge_bool (err c) \<Longrightarrow> assignments c es = 0"
  by (induction es arbitrary: c) (simp_all add: Error_def stores_def)

lemma Error_all_ignored:
  "\<forall>e \<in> set es. \<not> accepts c e \<Longrightarrow> Error_all c es = c"
  by (induction es) (simp_all add: Error_def)

lemma Error_flag_mono: "flag c \<Longrightarrow> flag (Error c e)"
  by (simp add: Error_def Cancel_def)

lemma Error_all_flag_mono: "flag c \<Longrightarrow> flag (Error_all c es)"
  by (induction es arbitrary: c) (simp_all add: Error_flag_mono)

lemma stores_Error: "stores c e \<Longrightarrow> Error c e = c\<lparr>flag := True, err := e\<rparr>"
  by (simp add: stores_def Error_def Cancel_def)

lemma not_stores_Error: "\<not> stores c e \<Longrightarrow> Error c e = c"
  by (auto simp add: stores_def Error_def Cancel_def)

lemma assignments_nonempty:
  "\<forall>e \<in> set es. ge_bool e \<Longrightarrow> assignments c es \<le> 1"
proof (induction es arbitrary: c)
  case Nil
  then show ?case by simp
next
  case (Cons e es)
  show ?case
  proof (cases "stores c e")
    case True
    then have "ge_bool (err (Error c e))"
      using Cons.prems by (simp add: stores_Error)
    then show ?thesis using True by (simp add: assignments_set)
  next
    case False
    then show ?thesis using Cons by (simp add: not_stores_Error)
  qed
qed

text \<open>
  C1 (amended). For a context built with the handler \<open>p(e) = (e.code \<noteq> X)\<close>: any
  number of calls \<open>Error(X, d)\<close> leave it not cancelled and without a stored error; a
  call \<open>Error(Y, d')\<close> with \<open>Y \<noteq> X\<close> then cancels it and stores \<open>Y\<close> with \<open>d'\<close>, and it
  stays cancelled; and when the value of \<open>Y\<close> is not zero, every further call of
  \<open>Error\<close> leaves the stored error as it is.
\<close>

theorem Context_accept_policy:
  "(let c0 = Context_handler (code_differs X);
        c1 = Error_all c0 (map (GenericError2 X) ds);
        c2 = Error c1 (GenericError2 Y d');
        c3 = Error_all c2 es
    in \<not> IsCancelled c1 \<and> err c1 = GenericError0
       \<and> (Y \<noteq> X \<longrightarrow>
            IsCancelled c2 \<and> GetError (err c2) = Y \<and> err c2 = GenericError2 Y d'
            \<and> IsCancelled c3
            \<and> (ec_bool Y \<longrightarrow> err c3 = err c2)))"
proof -
  define c0 where "c0 = Context_handler (code_differs X)"
  let ?c2 = "c0\<lparr>flag := True, err := GenericError2 Y d'\<rparr>"
  have ign: "\<forall>e \<in> set (map (GenericError2 X) ds). \<not> accepts c0 e"
    by (simp add: c0_def Context_handler_def accepts_def code_differs_def GetError_def
        GenericError2_def)
  have c1: "Error_all c0 (map (GenericError2 X) ds) = c0"
    using ign by (rule Error_all_ignored)
  have c2: "Y \<noteq> X \<Longrightarrow> Error c0 (GenericError2 Y d') = ?c2"
    by (rule stores_Error)
      (simp add: stores_def c0_def Context_handler_def accepts_def code_differs_def GetError_def
        GenericError2_def GenericError0_def ge_bool_def ec_bool_def default_error_code_def)
  have c3: "ec_bool Y \<Longrightarrow> Error_all ?c2 es = ?c2"
    by (rule Error_all_set) (simp add: ge_bool_def GenericError2_def)
  have fl: "flag (Error_all ?c2 es)"
    by (rule Error_all_flag_mono) simp
  show ?thesis
    unfolding Let_def c0_def [symmetric] c1
    using c2 c3 fl
    by (auto simp add: IsCancelled_def c0_def Context_handler_def GetError_def GenericError2_def)
qed

theorem Context_accept_policy_witness:
  "ErrorCode 2 0 \<noteq> ErrorCode 1 0 \<and> ec_bool (ErrorCode 2 0)
   \<and> IsCancelled (Error (Error_all (Context_handler (code_differs (ErrorCode 1 0)))
          (map (GenericError2 (ErrorCode 1 0)) [''a'', ''b''])) (GenericError2 (ErrorCode 2 0) ''boom''))
   \<and> err (Error_all
        (Error (Error_all (Context_handler (code_differs (ErrorCode 1 0)))
          (map (GenericError2 (ErrorCode 1 0)) [''a'', ''b''])) (GenericError2 (ErrorCode 2 0) ''boom''))
        [GenericError2 (ErrorCode 3 0) ''late'', GenericError1 (ErrorCode 1 0), GenericError0])
       = GenericError2 (ErrorCode 2 0) ''boom''"
  using Context_accept_policy [of "ErrorCode 1 0" "[''a'', ''b'']" "ErrorCode 2 0" "''boom''"
      "[GenericError2 (ErrorCode 3 0) ''late'', GenericError1 (ErrorCode 1 0), GenericError0]"]
  by (simp add: Let_def ec_bool_def)

text \<open>
  The claim as stated fails when \<open>Y\<close> is the zero code: with \<open>X\<close> of value 1, the call
  \<open>Error(Y, ...)\<close> with \<open>Y\<close> of value 0 is accepted and stored, the stored error still
  converts to false, and a further call with a code of value 2 replaces it.
\<close>

theorem Context_accept_policy_counterexample:
  "ErrorCode 0 0 \<noteq> ErrorCode 1 0
   \<and> GetError (err (Error
         (Error
           (Error (Context_handler (code_differs (ErrorCode 1 0)))
             (GenericError2 (ErrorCode 1 0) ''ignored''))
           (GenericError2 (ErrorCode 0 0) ''first''))
         (GenericError2 (ErrorCode 2 0) ''second''))) \<noteq> ErrorCode 0 0"
  by (simp add: Error_def Context_handler_def code_differs_def GetError_def GenericError2_def
      GenericError0_def ge_bool_def ec_bool_def accepts_def Cancel_def default_error_code_def)

text \<open>
  C3 (amended). For every context and every sequence of \<open>Error\<close> calls: a sequence
  whose candidates are all non-empty assigns the stored error at most once; from a call
  that assigns it on (also one that stores an empty candidate) \<open>IsCancelled\<close> is true;
  and after a call that stores a non-empty candidate no later call assigns it again.
\<close>

theorem Context_stored_error_once:
  "((\<forall>x \<in> set fs. ge_bool x) \<longrightarrow> assignments c fs \<le> 1)
   \<and> (stores c e \<longrightarrow> IsCancelled (Error c e) \<and> IsCancelled (Error_all (Error c e) es))
   \<and> (stores c e \<and> ge_bool e \<longrightarrow>
        assignments (Error c e) es = 0 \<and> err (Error_all (Error c e) es) = e)"
proof (intro conjI impI)
  assume "\<forall>x \<in> set fs. ge_bool x"
  then show "assignments c fs \<le> 1" by (rule assignments_nonempty)
next
  assume "stores c e"
  then show "IsCancelled (Error c e)"
    by (simp add: stores_Error IsCancelled_def)
next
  assume "stores c e"
  then have "flag (Error c e)" by (simp add: stores_Error)
  then show "IsCancelled (Error_all (Error c e) es)"
    unfolding IsCancelled_def by (rule Error_all_flag_mono)
next
  assume a: "stores c e \<and> ge_bool e"
  then have "ge_bool (err (Error c e))" by (simp add: stores_Error)
  then show "assignments (Error c e) es = 0" by (rule assignments_set)
next
  assume a: "stores c e \<and> ge_bool e"
  then have g: "ge_bool (err (Error c e))" by (simp add: stores_Error)
  have "Error_all (Error c e) es = Error c e" using g by (rule Error_all_set)
  with a show "err (Error_all (Error c e) es) = e"
    by (simp add: stores_Error)
qed

theorem Context_stored_error_once_witness:
  "ge_bool (GenericError1 (ErrorCode 5 0)) \<and> ge_bool (GenericError1 (ErrorCode 6 0))
   \<and> stores Context_init (GenericError1 (ErrorCode 5 0))
   \<and> assignments Context_init [GenericError1 (ErrorCode 5 0), GenericError1 (ErrorCode 6 0)] \<le> 1
   \<and> IsCancelled (Error_all (Error Context_init (GenericError1 (ErrorCode 5 0)))
         [GenericError1 (ErrorCode 6 0)])
   \<and> err (Error_all (Error Context_init (GenericError1 (ErrorCode 5 0)))
         [GenericError1 (ErrorCode 6 0)]) = GenericError1 (ErrorCode 5 0)"
  using Context_stored_error_once
    [of "[GenericError1 (ErrorCode 5 0), GenericError1 (ErrorCode 6 0)]"
      Context_init "GenericError1 (ErrorCode 5 0)" "[GenericError1 (ErrorCode 6 0)]"]
  by (simp add: stores_def Context_init_def GenericError0_def GenericError1_def ge_bool_def
      ec_bool_def accepts_def default_error_code_def)

text \<open>
  The claim as stated fails when the first accepted candidate is empty: a context
  without handler stores the empty error of \<open>Error()\<close> and then stores the error of the
  next call over it, two assignments.
\<close>

theorem Context_stored_error_once_counterexample:
  "\<not> assignments Context_init [GenericError0, GenericError1 (ErrorCode 5 0)] \<le> 1"
  by (simp add: Error_def Context_init_def stores_def GetError_def GenericError1_def
      GenericError0_def ge_bool_def ec_bool_def accepts_def Cancel_def default_error_code_def)

section \<open>Properties of the block histogram\<close>

lemma MiArenaVisit_snd:
  "snd (MiArenaVisit area bs bmap) =
     bmap(bkey_of area bs \<mapsto> count_of bmap (bkey_of area bs) + 1)"
  by (simp add: MiArenaVisit_def Let_def count_of_def)

lemma visit_blocks_Cons:
  "mi_heap_visit_blocks (v # vs) bmap =
     mi_heap_visit_blocks vs (snd (MiArenaVisit (fst v) (snd v) bmap))"
  by (cases v) (simp add: MiArenaVisit_def Let_def)

lemma visit_blocks_append:
  "mi_heap_visit_blocks (vs @ ws) bmap = mi_heap_visit_blocks ws (mi_heap_visit_blocks vs bmap)"
  by (induction vs arbitrary: bmap) (simp_all add: visit_blocks_Cons)

lemma totals_loop_sum:
  "totals_loop kvs (r, c, u) =
     (r + (\<Sum>(k, n) \<leftarrow> kvs. n * get1 k), c + (\<Sum>(k, n) \<leftarrow> kvs. n * get2 k),
      u + (\<Sum>(k, n) \<leftarrow> kvs. n * get3 k))"
  by (induction kvs arbitrary: r c u) (auto simp: add.assoc)

lemma weighted_map_of:
  "distinct (map fst kvs) \<Longrightarrow> weighted g (map_of kvs) = (\<Sum>(k, n) \<leftarrow> kvs. n * g k)"
proof (induction kvs)
  case Nil
  then show ?case by (simp add: weighted_def)
next
  case (Cons p kvs)
  obtain k n where p: "p = (k, n)" by (cases p)
  from Cons.prems p have notin: "k \<notin> dom (map_of kvs)" and d: "distinct (map fst kvs)"
    by (auto simp: dom_map_of_conv_image_fst)
  have "weighted g (map_of (p # kvs)) =
      (\<Sum>x \<in> insert k (dom (map_of kvs)). the (((map_of kvs)(k \<mapsto> n)) x) * g x)"
    by (simp add: weighted_def p)
  also have "\<dots> = n * g k + (\<Sum>x \<in> dom (map_of kvs). the (((map_of kvs)(k \<mapsto> n)) x) * g x)"
    using notin by (simp add: finite_dom_map_of)
  also have "(\<Sum>x \<in> dom (map_of kvs). the (((map_of kvs)(k \<mapsto> n)) x) * g x) =
      (\<Sum>x \<in> dom (map_of kvs). the (map_of kvs x) * g x)"
    using notin by (intro sum.cong) auto
  finally show ?case using Cons.IH [OF d] by (simp add: p weighted_def)
qed

lemma MallocStats_totals_weighted:
  assumes "iterates kvs bmap"
  shows "MallocStats_totals kvs = (weighted get1 bmap, weighted get2 bmap, weighted get3 bmap)"
  using assms by (auto simp: iterates_def MallocStats_totals_def totals_loop_sum weighted_map_of)

text \<open>
  C7. For every block histogram, in whatever order the loop of \<open>MallocStats\<close> iterates
  over it, the totals are the sums over the keys of count times reserved, count times
  committed and count times used (in 64-bit arithmetic); five areas of key
  \<open>(8, 8, 8, 8)\<close>, counted as three and two, give count 5 and totals 40 each.
\<close>

theorem MallocStats_totals_sum:
  "iterates kvs bmap \<longrightarrow>
   MallocStats_totals kvs =
     (\<Sum>k \<in> dom bmap. the (bmap k) * get1 k,
      \<Sum>k \<in> dom bmap. the (bmap k) * get2 k,
      \<Sum>k \<in> dom bmap. the (bmap k) * get3 k)"
  using MallocStats_totals_weighted [of kvs bmap] by (simp add: weighted_def)

theorem MallocStats_totals_sum_witness:
  "mi_heap_visit_blocks (replicate 3 block8 @ replicate 2 block8) Map.empty = [key8 \<mapsto> 5]
   \<and> iterates [(key8, 5)] [key8 \<mapsto> 5]
   \<and> MallocStats_totals [(key8, 5)] = (40, 40, 40)
   \<and> (\<Sum>k \<in> dom [key8 \<mapsto> 5 :: 64 word]. the ([key8 \<mapsto> 5 :: 64 word] k) * get1 k) = 40"
proof -
  have b: "bkey_of (fst block8) (snd block8) = key8"
    by (simp add: bkey_of_def block8_def key8_def)
  have v: "mi_heap_visit_blocks [block8, block8, block8, block8, block8] Map.empty = [key8 \<mapsto> 5]"
    by (simp add: visit_blocks_Cons MiArenaVisit_snd b count_of_def)
  have r: "replicate 3 block8 @ replicate 2 block8 = [block8, block8, block8, block8, block8]"
    by (simp add: numeral_3_eq_3 numeral_2_eq_2)
  have i: "iterates [(key8, 5)] [key8 \<mapsto> 5]"
    by (simp add: iterates_def)
  have t: "MallocStats_totals [(key8, 5)] = (40, 40, 40)"
    by (simp add: MallocStats_totals_def key8_def)
  from MallocStats_totals_sum [of "[(key8, 5)]" "[key8 \<mapsto> 5]"] i t
  have "(\<Sum>k \<in> dom [key8 \<mapsto> 5 :: 64 word]. the ([key8 \<mapsto> 5 :: 64 word] k) * get1 k) = 40"
    by simp
  with v r i t show ?thesis by simp
qed

section \<open>Properties of the merge\<close>

lemma merge_hist_commute: "merge_hist a b = merge_hist b a"
  by (auto simp: merge_hist_def fun_eq_iff split: option.splits)

lemma merge_hist_assoc: "merge_hist (merge_hist a b) c = merge_hist a (merge_hist b c)"
  by (auto simp: merge_hist_def fun_eq_iff split: option.splits)

lemma merge_hist_empty: "merge_hist Map.empty b = b" "merge_hist a Map.empty = a"
  by (auto simp: merge_hist_def fun_eq_iff split: option.splits)

lemma add_totals_commute: "add_totals s t = add_totals t s"
  by (cases s; cases t) (simp add: add.commute)

lemma add_totals_assoc: "add_totals (add_totals s t) u = add_totals s (add_totals t u)"
  by (cases s; cases t; cases u) (simp add: add.assoc)

lemma merge_report_commute: "merge_report a b = merge_report b a"
  by (cases a; cases b) (simp add: merge_hist_commute add_totals_commute)

lemma merge_report_assoc: "merge_report (merge_report a b) c = merge_report a (merge_report b c)"
  by (cases a; cases b; cases c) (simp add: merge_hist_assoc add_totals_assoc)

lemma merge_report_left_commute:
  "merge_report a \<circ> merge_report b = merge_report b \<circ> merge_report a"
proof
  fix x
  have "merge_report a (merge_report b x) = merge_report (merge_report a b) x"
    by (simp add: merge_report_assoc)
  also have "\<dots> = merge_report (merge_report b a) x"
    by (simp add: merge_report_commute)
  also have "\<dots> = merge_report b (merge_report a x)"
    by (simp add: merge_report_assoc)
  finally show "(merge_report a \<circ> merge_report b) x = (merge_report b \<circ> merge_report a) x"
    by simp
qed

lemma fold_merge_report_perm:
  assumes "mset rs = mset rs'"
  shows "fold merge_report rs r0 = fold merge_report rs' r0"
proof -
  have "fold merge_report rs = fold merge_report rs'"
    using assms by (intro fold_multiset_equiv) (simp_all add: merge_report_left_commute)
  then show ?thesis by simp
qed

lemma weighted_count_of:
  assumes "finite S" "dom bmap \<subseteq> S"
  shows "weighted g bmap = (\<Sum>k \<in> S. count_of bmap k * g k)"
proof -
  have "weighted g bmap = (\<Sum>k \<in> dom bmap. count_of bmap k * g k)"
    unfolding weighted_def by (intro sum.cong) (auto simp: count_of_def)
  also have "\<dots> = (\<Sum>k \<in> S. count_of bmap k * g k)"
    using assms by (intro sum.mono_neutral_left) (auto simp: count_of_def split: option.splits)
  finally show ?thesis .
qed

lemma count_of_merge_hist: "count_of (merge_hist a b) k = count_of a k + count_of b k"
  by (simp add: count_of_def merge_hist_def split: option.splits)

lemma dom_merge_hist: "dom (merge_hist a b) = dom a \<union> dom b"
  by (auto simp: merge_hist_def split: option.splits)

lemma weighted_merge_hist:
  assumes "finite (dom a)" "finite (dom b)"
  shows "weighted g (merge_hist a b) = weighted g a + weighted g b"
proof -
  let ?S = "dom a \<union> dom b"
  have fin: "finite ?S" using assms by simp
  have "weighted g (merge_hist a b) = (\<Sum>k \<in> ?S. count_of (merge_hist a b) k * g k)"
    using fin by (rule weighted_count_of) (simp add: dom_merge_hist)
  also have "\<dots> = (\<Sum>k \<in> ?S. count_of a k * g k) + (\<Sum>k \<in> ?S. count_of b k * g k)"
    by (simp add: count_of_merge_hist distrib_right sum.distrib)
  also have "(\<Sum>k \<in> ?S. count_of a k * g k) = weighted g a"
    using fin by (rule weighted_count_of [symmetric]) simp
  also have "(\<Sum>k \<in> ?S. count_of b k * g k) = weighted g b"
    using fin by (rule weighted_count_of [symmetric]) simp
  finally show ?thesis .
qed

lemma iterates_finite: "iterates kvs bmap \<Longrightarrow> finite (dom bmap)"
  by (auto simp: iterates_def finite_dom_map_of)

lemma MallocStats_totals_merge:
  assumes "iterates kvs_a a" "iterates kvs_b b" "iterates kvs (merge_hist a b)"
  shows "MallocStats_totals kvs = add_totals (MallocStats_totals kvs_a) (MallocStats_totals kvs_b)"
  using assms
  by (simp add: MallocStats_totals_weighted weighted_merge_hist iterates_finite)

lemma MiArenaVisit_merge:
  "snd (MiArenaVisit area bs bmap) = merge_hist bmap (snd (MiArenaVisit area bs Map.empty))"
  by (auto simp: MiArenaVisit_snd count_of_def merge_hist_def fun_eq_iff split: option.splits)

lemma visit_blocks_merge:
  "mi_heap_visit_blocks vs bmap = merge_hist bmap (mi_heap_visit_blocks vs Map.empty)"
proof (induction vs arbitrary: bmap)
  case Nil
  then show ?case by (simp add: merge_hist_empty)
next
  case (Cons v vs)
  let ?one = "snd (MiArenaVisit (fst v) (snd v) Map.empty)"
  have "mi_heap_visit_blocks (v # vs) bmap =
      merge_hist (merge_hist bmap ?one) (mi_heap_visit_blocks vs Map.empty)"
    using Cons.IH [of "snd (MiArenaVisit (fst v) (snd v) bmap)"]
      MiArenaVisit_merge [of "fst v" "snd v" bmap]
    by (simp add: visit_blocks_Cons)
  also have "\<dots> = merge_hist bmap (merge_hist ?one (mi_heap_visit_blocks vs Map.empty))"
    by (rule merge_hist_assoc)
  also have "merge_hist ?one (mi_heap_visit_blocks vs Map.empty) =
      mi_heap_visit_blocks (v # vs) Map.empty"
    using Cons.IH [of ?one] by (simp add: visit_blocks_Cons)
  finally show ?case .
qed

lemma visit_blocks_concat:
  "mi_heap_visit_blocks (vs @ ws) Map.empty =
     merge_hist (mi_heap_visit_blocks vs Map.empty) (mi_heap_visit_blocks ws Map.empty)"
  using visit_blocks_merge [of ws "mi_heap_visit_blocks vs Map.empty"]
  by (simp add: visit_blocks_append)

lemma visit_blocks_fold:
  "mi_heap_visit_blocks vs bmap = fold (\<lambda>v m. snd (MiArenaVisit (fst v) (snd v) m)) vs bmap"
  by (induction vs arbitrary: bmap) (simp_all add: visit_blocks_Cons)

lemma MiArenaVisit_commute:
  "snd (MiArenaVisit a bs (snd (MiArenaVisit a' bs' m))) =
   snd (MiArenaVisit a' bs' (snd (MiArenaVisit a bs m)))"
proof (cases "bkey_of a bs = bkey_of a' bs'")
  case True
  then show ?thesis by (simp add: MiArenaVisit_snd)
next
  case False
  then show ?thesis
    by (simp add: MiArenaVisit_snd count_of_def fun_upd_twist)
qed

lemma visit_blocks_perm:
  assumes "mset vs = mset ws"
  shows "mi_heap_visit_blocks vs bmap = mi_heap_visit_blocks ws bmap"
proof -
  let ?f = "\<lambda>v m. snd (MiArenaVisit (fst v) (snd v) m)"
  have "?f x \<circ> ?f y = ?f y \<circ> ?f x" for x y
    by (rule ext) (simp add: MiArenaVisit_commute)
  then have "fold ?f vs = fold ?f ws"
    using assms by (intro fold_multiset_equiv) blast
  then show ?thesis by (simp add: visit_blocks_fold)
qed

text \<open>
  C8. Merging shard reports (histograms merged by key with counts summed, byte totals
  summed) is commutative and associative, and folding a collection of reports in any
  order gives the same merged histogram and totals. On the code: the histogram that
  \<open>MiArenaVisit\<close> builds does not depend on the order of the visits, the histogram of
  two runs of visits is the merge of their histograms, and the totals that
  \<open>MallocStats\<close> computes for a merged histogram are the sums of the totals of its
  parts.
\<close>

theorem merge_commutative_associative:
  "merge_report a b = merge_report b a
   \<and> merge_report (merge_report a b) c = merge_report a (merge_report b c)
   \<and> (mset rs = mset rs' \<longrightarrow> fold merge_report rs r0 = fold merge_report rs' r0)
   \<and> (mset heap = mset heap' \<longrightarrow>
        mi_heap_visit_blocks heap bmap = mi_heap_visit_blocks heap' bmap)
   \<and> mi_heap_visit_blocks (vs @ ws) Map.empty =
       merge_hist (mi_heap_visit_blocks vs Map.empty) (mi_heap_visit_blocks ws Map.empty)
   \<and> (iterates kvs_x x \<and> iterates kvs_y y \<and> iterates kvs (merge_hist x y) \<longrightarrow>
        MallocStats_totals kvs = add_totals (MallocStats_totals kvs_x) (MallocStats_totals kvs_y))"
proof (intro conjI impI)
  show "merge_report a b = merge_report b a"
    by (rule merge_report_commute)
  show "merge_report (merge_report a b) c = merge_report a (merge_report b c)"
    by (rule merge_report_assoc)
  show "fold merge_report rs r0 = fold merge_report rs' r0" if "mset rs = mset rs'"
    using that by (rule fold_merge_report_perm)
  show "mi_heap_visit_blocks heap bmap = mi_heap_visit_blocks heap' bmap"
    if "mset heap = mset heap'"
    using that by (rule visit_blocks_perm)
  show "mi_heap_visit_blocks (vs @ ws) Map.empty =
      merge_hist (mi_heap_visit_blocks vs Map.empty) (mi_heap_visit_blocks ws Map.empty)"
    by (rule visit_blocks_concat)
  show "MallocStats_totals kvs = add_totals (MallocStats_totals kvs_x) (MallocStats_totals kvs_y)"
    if "iterates kvs_x x \<and> iterates kvs_y y \<and> iterates kvs (merge_hist x y)"
    using that by (blast intro: MallocStats_totals_merge)
qed

theorem merge_commutative_associative_witness:
  "mset [shard_A, shard_B] = mset [shard_B, shard_A]
   \<and> mset [block8, (fst block8, 16)] = mset [(fst block8, 16), block8]
   \<and> iterates [(key8, 3)] (fst shard_A) \<and> iterates [(key8, 2)] (fst shard_B)
   \<and> iterates [(key8, 5)] (merge_hist (fst shard_A) (fst shard_B))
   \<and> fold merge_report [shard_A, shard_B] (Map.empty, (0, 0, 0)) = ([key8 \<mapsto> 5], (40, 40, 40))
   \<and> fold merge_report [shard_B, shard_A] (Map.empty, (0, 0, 0)) = ([key8 \<mapsto> 5], (40, 40, 40))
   \<and> mi_heap_visit_blocks [block8, (fst block8, 16)] Map.empty =
       mi_heap_visit_blocks [(fst block8, 16), block8] Map.empty
   \<and> MallocStats_totals [(key8, 5)] = (40, 40, 40)"
proof -
  note inst = merge_commutative_associative
    [of shard_A shard_B "(Map.empty, (0, 0, 0))" "[shard_A, shard_B]" "[shard_B, shard_A]"
        "(Map.empty, (0, 0, 0))" "[block8, (fst block8, 16)]" "[(fst block8, 16), block8]"
        Map.empty "[block8, block8, block8]" "[block8, block8]"
        "[(key8, 3)]" "fst shard_A" "[(key8, 2)]" "fst shard_B" "[(key8, 5)]"]
  have perm: "mset [shard_A, shard_B] = mset [shard_B, shard_A]"
    by (simp add: add_mset_commute)
  have perm': "mset [block8, (fst block8, 16)] = mset [(fst block8, 16), block8]"
    by (simp add: add_mset_commute)
  have ia: "iterates [(key8, 3)] (fst shard_A)"
    by (simp add: iterates_def shard_A_def)
  have ib: "iterates [(key8, 2)] (fst shard_B)"
    by (simp add: iterates_def shard_B_def)
  have mh: "merge_hist (fst shard_A) (fst shard_B) = [key8 \<mapsto> 5]"
    by (auto simp: merge_hist_def shard_A_def shard_B_def fun_eq_iff)
  have iab: "iterates [(key8, 5)] (merge_hist (fst shard_A) (fst shard_B))"
    by (simp add: mh iterates_def)
  have ta: "MallocStats_totals [(key8, 3)] = (24, 24, 24)"
    by (simp add: MallocStats_totals_def key8_def)
  have tb: "MallocStats_totals [(key8, 2)] = (16, 16, 16)"
    by (simp add: MallocStats_totals_def key8_def)
  have ba: "fold merge_report [shard_B, shard_A] (Map.empty, (0, 0, 0)) =
      ([key8 \<mapsto> 5], (40, 40, 40))"
    using mh
    by (simp add: shard_A_def shard_B_def merge_hist_empty merge_hist_commute [of "[key8 \<mapsto> 2]"])
  from inst perm have "fold merge_report [shard_A, shard_B] (Map.empty, (0, 0, 0))
      = fold merge_report [shard_B, shard_A] (Map.empty, (0, 0, 0))"
    by blast
  with ba have ab: "fold merge_report [shard_A, shard_B] (Map.empty, (0, 0, 0)) =
      ([key8 \<mapsto> 5], (40, 40, 40))"
    by simp
  from inst perm' have vis: "mi_heap_visit_blocks [block8, (fst block8, 16)] Map.empty =
       mi_heap_visit_blocks [(fst block8, 16), block8] Map.empty"
    by blast
  from inst ia ib iab have "MallocStats_totals [(key8, 5)]
      = add_totals (MallocStats_totals [(key8, 3)]) (MallocStats_totals [(key8, 2)])"
    by blast
  then have tot: "MallocStats_totals [(key8, 5)] = (40, 40, 40)"
    by (simp add: ta tb)
  from perm perm' ia ib iab ab ba vis tot show ?thesis by blast
qed

section \<open>Properties of MemoryCmd::Run\<close>

text \<open>
  C6. When \<open>MEMORY MALLOC-STATS\<close> has a selector argument that parses to the integer
  \<open>s\<close>, and there are \<open>N > 0\<close> shards, the work is dispatched to shard \<open>s mod N\<close> and
  its text is returned; no error is sent. With four shards the selector 7 goes to
  shard 3 and the selector 4 to shard 0.
\<close>

theorem Run_selector_modulo:
  "3 \<le> length args \<and> args ! 1 = ''MALLOC-STATS'' \<and> SimpleAtoi env (args ! 2) = Some s
     \<and> 0 < pool_size env \<longrightarrow>
   Run env args =
     Inr \<lparr>dispatched = Some (unat s mod pool_size env),
          sent = SendBulkString (MallocStats_on env (unat s mod pool_size env))\<rparr>"
  by (simp add: Run_def ArgS_def Let_def)

theorem Run_selector_modulo_witness:
  "3 \<le> length [''MEMORY'', ''MALLOC-STATS'', ''7'']
   \<and> [''MEMORY'', ''MALLOC-STATS'', ''7''] ! 1 = ''MALLOC-STATS''
   \<and> SimpleAtoi four_shards ([''MEMORY'', ''MALLOC-STATS'', ''7''] ! 2) = Some 7
   \<and> 0 < pool_size four_shards
   \<and> pool_size four_shards = 4
   \<and> Run four_shards [''MEMORY'', ''MALLOC-STATS'', ''7''] =
       Inr \<lparr>dispatched = Some 3, sent = SendBulkString ''stats''\<rparr>
   \<and> SimpleAtoi four_shards ([''MEMORY'', ''MALLOC-STATS'', ''4''] ! 2) = Some 4
   \<and> Run four_shards [''MEMORY'', ''MALLOC-STATS'', ''4''] =
       Inr \<lparr>dispatched = Some 0, sent = SendBulkString ''stats''\<rparr>"
  using Run_selector_modulo [of "[''MEMORY'', ''MALLOC-STATS'', ''7'']" four_shards 7]
    Run_selector_modulo [of "[''MEMORY'', ''MALLOC-STATS'', ''4'']" four_shards 4]
  by (simp add: four_shards_def)

text \<open>
  C10. When \<open>MEMORY MALLOC-STATS\<close> has no selector argument (fewer than three
  arguments), the selector is 0: the work is dispatched to shard 0 and its text is
  returned, for every positive number of shards.
\<close>

theorem Run_default_selector:
  "ArgS args 1 = Inr ''MALLOC-STATS'' \<and> length args < 3 \<and> 0 < pool_size env \<longrightarrow>
   Run env args =
     Inr \<lparr>dispatched = Some 0, sent = SendBulkString (MallocStats_on env 0)\<rparr>"
  by (simp add: Run_def Let_def)

theorem Run_default_selector_witness:
  "ArgS [''MEMORY'', ''MALLOC-STATS''] 1 = Inr ''MALLOC-STATS''
   \<and> length [''MEMORY'', ''MALLOC-STATS''] < 3 \<and> 0 < pool_size four_shards
   \<and> Run four_shards [''MEMORY'', ''MALLOC-STATS''] =
       Inr \<lparr>dispatched = Some 0, sent = SendBulkString ''stats''\<rparr>"
  using Run_default_selector [of "[''MEMORY'', ''MALLOC-STATS'']" four_shards]
  by (simp add: four_shards_def ArgS_def)

text \<open>
  C9. A \<open>MALLOC-STATS\<close> call whose selector argument is present and does not parse as
  an integer sends exactly the invalid-integer error; a sub-command other than \<open>USAGE\<close>
  and \<open>MALLOC-STATS\<close> sends exactly the unknown-sub-command error built for the
  family \<open>MEMORY\<close>, with the syntax error type; and every error that \<open>Run\<close> sends is
  one of these two, sent without dispatching any work.
\<close>

theorem Run_errors:
  "(3 \<le> length args \<and> args ! 1 = ''MALLOC-STATS'' \<and> SimpleAtoi env (args ! 2) = None \<longrightarrow>
      Run env args = Inr \<lparr>dispatched = None, sent = SendError (kInvalidIntErr env) None\<rparr>)
   \<and> (2 \<le> length args' \<and> args' ! 1 \<noteq> ''USAGE'' \<and> args' ! 1 \<noteq> ''MALLOC-STATS'' \<longrightarrow>
      Run env args' =
        Inr \<lparr>dispatched = None,
             sent = SendError (UnknownSubCmd env (args' ! 1) ''MEMORY'')
                      (Some (kSyntaxErrType env))\<rparr>)
   \<and> (Run env args = Inr out \<and> sent out = SendError msg type \<longrightarrow>
        dispatched out = None
        \<and> (args ! 1 = ''MALLOC-STATS'' \<and> 3 \<le> length args \<and> SimpleAtoi env (args ! 2) = None
              \<and> msg = kInvalidIntErr env \<and> type = None
            \<or> 2 \<le> length args \<and> args ! 1 \<noteq> ''USAGE'' \<and> args ! 1 \<noteq> ''MALLOC-STATS''
              \<and> msg = UnknownSubCmd env (args ! 1) ''MEMORY''
              \<and> type = Some (kSyntaxErrType env)))"
proof (intro conjI impI)
  assume "3 \<le> length args \<and> args ! 1 = ''MALLOC-STATS'' \<and> SimpleAtoi env (args ! 2) = None"
  then show "Run env args = Inr \<lparr>dispatched = None, sent = SendError (kInvalidIntErr env) None\<rparr>"
    by (simp add: Run_def ArgS_def)
next
  assume "2 \<le> length args' \<and> args' ! 1 \<noteq> ''USAGE'' \<and> args' ! 1 \<noteq> ''MALLOC-STATS''"
  then show "Run env args' =
      Inr \<lparr>dispatched = None,
           sent = SendError (UnknownSubCmd env (args' ! 1) ''MEMORY'')
                    (Some (kSyntaxErrType env))\<rparr>"
    by (simp add: Run_def ArgS_def)
next
  assume a: "Run env args = Inr out \<and> sent out = SendError msg type"
  then show "dispatched out = None"
    by (auto simp: Run_def ArgS_def Let_def split: if_splits option.splits)
next
  assume a: "Run env args = Inr out \<and> sent out = SendError msg type"
  then show "args ! 1 = ''MALLOC-STATS'' \<and> 3 \<le> length args \<and> SimpleAtoi env (args ! 2) = None
        \<and> msg = kInvalidIntErr env \<and> type = None
      \<or> 2 \<le> length args \<and> args ! 1 \<noteq> ''USAGE'' \<and> args ! 1 \<noteq> ''MALLOC-STATS''
        \<and> msg = UnknownSubCmd env (args ! 1) ''MEMORY'' \<and> type = Some (kSyntaxErrType env)"
    by (auto simp: Run_def ArgS_def Let_def split: if_splits option.splits)
qed

theorem Run_errors_witness:
  "3 \<le> length [''MEMORY'', ''MALLOC-STATS'', ''x1'']
   \<and> [''MEMORY'', ''MALLOC-STATS'', ''x1''] ! 1 = ''MALLOC-STATS''
   \<and> SimpleAtoi four_shards ([''MEMORY'', ''MALLOC-STATS'', ''x1''] ! 2) = None
   \<and> Run four_shards [''MEMORY'', ''MALLOC-STATS'', ''x1''] =
       Inr \<lparr>dispatched = None,
            sent = SendError ''value is not an integer or out of range'' None\<rparr>
   \<and> 2 \<le> length [''MEMORY'', ''DOCTOR'']
   \<and> [''MEMORY'', ''DOCTOR''] ! 1 \<noteq> ''USAGE'' \<and> [''MEMORY'', ''DOCTOR''] ! 1 \<noteq> ''MALLOC-STATS''
   \<and> Run four_shards [''MEMORY'', ''DOCTOR''] =
       Inr \<lparr>dispatched = None,
            sent = SendError ''Unknown subcommand DOCTOR. Try MEMORY HELP.''
                     (Some ''syntax_error'')\<rparr>"
  using Run_errors [of "[''MEMORY'', ''MALLOC-STATS'', ''x1'']" four_shards
      "[''MEMORY'', ''DOCTOR'']"
      "\<lparr>dispatched = None, sent = SendError ''value is not an integer or out of range'' None\<rparr>"
      "''value is not an integer or out of range''" None]
  by (simp add: four_shards_def)

end
